theory Spec2Isabelle
  imports Main "HOL-Library.Char_ord" "HOL-Library.List_Lexorder" "HOL-Library.Word"
begin

section \<open>Attribute values\<close>

text \<open>
  Modelled from the spec: \<open>mapnik::value\<close>. The header \<open>value.hpp\<close> is not among the
  sources; the spec describes the attribute value as a tagged union (null, boolean, numeric,
  string) of which \<open>feature.hpp\<close> uses only the default-constructed (null) instance and
  the comparison with \<open>value_null()\<close>. A double is kept as its 64-bit pattern: no
  operation of \<open>feature.hpp\<close> computes with it.
\<close>

datatype mapnik_value =
    value_null
  | value_bool bool
  | value_integer int
  | value_double "64 word"
  | value_unicode_string string

text \<open>\<open>static const value default_value;\<close> is a default-constructed value.\<close>

definition default_value :: mapnik_value where
  "default_value = value_null"


section \<open>The ordered map \<open>std::map<std::string, std::size_t>\<close>\<close>

text \<open>
  The map is the list of its entries in iteration order, which for \<open>std::map\<close> is the
  ascending order of the keys; \<open>std::string\<close> compares bytewise and lexicographically,
  which is the order of \<open>char list\<close> here. \<open>std::size_t\<close> values are sizes of
  containers held in memory and never wrap, so they are natural numbers.
\<close>

type_synonym key_type = string
type_synonym size_type = nat
type_synonym map_type = "(key_type \<times> size_type) list"

text \<open>\<open>find\<close>: \<open>None\<close> stands for the iterator \<open>end()\<close>, \<open>Some i\<close> for an iterator
  whose \<open>second\<close> is \<open>i\<close>.\<close>

fun map_find :: "map_type \<Rightarrow> key_type \<Rightarrow> size_type option" where
  "map_find [] k = None"
| "map_find ((k', i) # m) k = (if k = k' then Some i else map_find m k)"

text \<open>\<open>insert\<close>: the entry goes to its place in key order; an entry whose key is already
  there is left as it was.\<close>

fun map_insert :: "key_type \<times> size_type \<Rightarrow> map_type \<Rightarrow> map_type" where
  "map_insert (k, i) [] = [(k, i)]"
| "map_insert (k, i) ((k', i') # m) =
     (if k < k' then (k, i) # (k', i') # m
      else if k = k' then (k', i') # m
      else (k', i') # map_insert (k, i) m)"

text \<open>What every \<open>std::map\<close> satisfies: the keys are strictly ascending.\<close>

definition map_inv :: "map_type \<Rightarrow> bool" where
  "map_inv m = sorted_wrt (<) (map fst m)"


section \<open>\<open>context\<close>: the shared schema\<close>

record context_type =
  mapping :: map_type

definition context_ctor :: context_type where
  "context_ctor = \<lparr>mapping = []\<rparr>"

definition push :: "key_type \<Rightarrow> context_type \<Rightarrow> size_type \<times> context_type" where
  "push name c =
     (let index = length (mapping c)
      in (index, c\<lparr>mapping := map_insert (name, index) (mapping c)\<rparr>))"

definition add :: "key_type \<Rightarrow> size_type \<Rightarrow> context_type \<Rightarrow> context_type" where
  "add name index c = c\<lparr>mapping := map_insert (name, index) (mapping c)\<rparr>"

definition context_size :: "context_type \<Rightarrow> size_type" where
  "context_size c = length (mapping c)"


section \<open>\<open>feature_impl\<close>: the record\<close>

text \<open>
  A \<open>context_ptr\<close> is a shared pointer: several features hold the same one, and what one
  of them registers is seen by all. The contexts live in a store, indexed by address; a
  feature holds the address. Every address holds a context, so the null pointer, which
  the constructor would dereference, is not a value of the model.
\<close>

type_synonym context_ptr = nat
type_synonym store = "context_ptr \<Rightarrow> context_type"
type_synonym value_integer = int

text \<open>The geometries (\<open>'g\<close>) and the raster (\<open>'r\<close>) are held, never inspected, by the
  operations on attributes; \<open>raster\<close> is a shared pointer that may be null.\<close>

record ('g, 'r) feature_impl =
  feature_id :: value_integer
  ctx :: context_ptr
  data :: "mapnik_value list"
  geom_cont :: "'g list"
  raster :: "'r option"

datatype error = out_of_range string

definition feature_impl_ctor ::
  "store \<Rightarrow> context_ptr \<Rightarrow> value_integer \<Rightarrow> ('g, 'r) feature_impl" where
  "feature_impl_ctor h c i =
     \<lparr>feature_id = i, ctx = c,
      data = replicate (length (mapping (h c))) default_value,
      geom_cont = [], raster = None\<rparr>"

definition set_id :: "value_integer \<Rightarrow> ('g, 'r) feature_impl \<Rightarrow> ('g, 'r) feature_impl" where
  "set_id i f = f\<lparr>feature_id := i\<rparr>"

text \<open>\<open>put\<close> and \<open>put_new\<close> work on the feature and on the store its context lives in;
  they return both. \<open>put\<close> returns, first, whether it threw.\<close>

definition put ::
  "key_type \<Rightarrow> mapnik_value \<Rightarrow> store \<Rightarrow> ('g, 'r) feature_impl
     \<Rightarrow> (error + unit) \<times> store \<times> ('g, 'r) feature_impl" where
  "put key val h f =
     (let itr = map_find (mapping (h (ctx f))) key
      in if itr \<noteq> None \<and> the itr < length (data f)
         then (Inr (), h, f\<lparr>data := (data f)[the itr := val]\<rparr>)
         else (Inl (out_of_range (''Key does not exist: '' @ [CHR 0x27] @ key @ [CHR 0x27])),
               h, f))"

definition put_new ::
  "key_type \<Rightarrow> mapnik_value \<Rightarrow> store \<Rightarrow> ('g, 'r) feature_impl
     \<Rightarrow> store \<times> ('g, 'r) feature_impl" where
  "put_new key val h f =
     (let itr = map_find (mapping (h (ctx f))) key
      in if itr \<noteq> None \<and> the itr < length (data f)
         then (h, f\<lparr>data := (data f)[the itr := val]\<rparr>)
         else (let (index, c) = push key (h (ctx f));
                   h' = h(ctx f := c)
               in if index = length (data f)
                  then (h', f\<lparr>data := data f @ [val]\<rparr>)
                  else (h', f)))"

definition has_key :: "key_type \<Rightarrow> store \<Rightarrow> ('g, 'r) feature_impl \<Rightarrow> bool" where
  "has_key key h f = (map_find (mapping (h (ctx f))) key \<noteq> None)"

definition get_index :: "size_type \<Rightarrow> ('g, 'r) feature_impl \<Rightarrow> mapnik_value" where
  "get_index index f = (if index < length (data f) then data f ! index else default_value)"

definition get :: "key_type \<Rightarrow> store \<Rightarrow> ('g, 'r) feature_impl \<Rightarrow> mapnik_value" where
  "get key h f =
     (let itr = map_find (mapping (h (ctx f))) key
      in if itr \<noteq> None then get_index (the itr) f else default_value)"

definition feature_size :: "('g, 'r) feature_impl \<Rightarrow> size_type" where
  "feature_size f = length (data f)"

definition get_data :: "('g, 'r) feature_impl \<Rightarrow> mapnik_value list" where
  "get_data f = data f"

definition set_data :: "mapnik_value list \<Rightarrow> ('g, 'r) feature_impl \<Rightarrow> ('g, 'r) feature_impl" where
  "set_data d f = f\<lparr>data := d\<rparr>"

definition add_geometry :: "'g \<Rightarrow> ('g, 'r) feature_impl \<Rightarrow> ('g, 'r) feature_impl" where
  "add_geometry geom f = f\<lparr>geom_cont := geom_cont f @ [geom]\<rparr>"

definition num_geometries :: "('g, 'r) feature_impl \<Rightarrow> size_type" where
  "num_geometries f = length (geom_cont f)"

definition get_raster :: "('g, 'r) feature_impl \<Rightarrow> 'r option" where
  "get_raster f = raster f"

definition set_raster :: "'r option \<Rightarrow> ('g, 'r) feature_impl \<Rightarrow> ('g, 'r) feature_impl" where
  "set_raster r f = f\<lparr>raster := r\<rparr>"



section \<open>\<open>envelope\<close>\<close>

text \<open>
  Modelled from the spec: \<open>box2d\<close>. The header \<open>box2d.hpp\<close> is not among the sources;
  the spec asks of a bounding box a rectangle \<open>(minX, minY, maxX, maxY)\<close>, "initialize
  from four scalars" and "expand to include another box". The coordinates are doubles in
  the source; the model takes them from any linear order, which the doubles other than
  NaN are, since the two operations only compare and copy. What the default constructor
  builds (the "empty" box) is not said: it is a parameter of \<open>envelope\<close>.
\<close>

record 'c box2d =
  minx :: 'c
  miny :: 'c
  maxx :: 'c
  maxy :: 'c

definition init :: "'c box2d \<Rightarrow> 'c \<Rightarrow> 'c \<Rightarrow> 'c \<Rightarrow> 'c \<Rightarrow> 'c box2d" where
  "init b x0 y0 x1 y1 = b\<lparr>minx := x0, miny := y0, maxx := x1, maxy := y1\<rparr>"

definition expand_to_include :: "('c::linorder) box2d \<Rightarrow> 'c box2d \<Rightarrow> 'c box2d" where
  "expand_to_include b other =
     b\<lparr>minx := min (minx b) (minx other), miny := min (miny b) (miny other),
       maxx := max (maxx b) (maxx other), maxy := max (maxy b) (maxy other)\<rparr>"

text \<open>
  The loop of \<open>envelope\<close>, from the counter \<open>i\<close> on. \<open>genv\<close> is the bounding-box query
  \<open>geometry_type::envelope\<close> of the geometries, which the sources do not hold. The counter
  is an \<open>unsigned\<close> in the source and a natural number here: the model is the code for
  a collection whose size fits the counter.
\<close>

function envelope_loop ::
  "('g \<Rightarrow> ('c::linorder) box2d) \<Rightarrow> ('g, 'r) feature_impl \<Rightarrow> nat \<Rightarrow> 'c box2d \<Rightarrow> 'c box2d" where
  "envelope_loop genv f i result =
     (if i < num_geometries f
      then (let geom = geom_cont f ! i
            in envelope_loop genv f (Suc i)
                 (if i = 0
                  then (let box = genv geom
                        in init result (minx box) (miny box) (maxx box) (maxy box))
                  else expand_to_include result (genv geom)))
      else result)"
  by pat_completeness auto
termination
  by (relation "measure (\<lambda>(genv, f, i, result). num_geometries f - i)") auto

declare envelope_loop.simps [simp del]

definition envelope ::
  "('c::linorder) box2d \<Rightarrow> ('g \<Rightarrow> 'c box2d) \<Rightarrow> ('g, 'r) feature_impl \<Rightarrow> 'c box2d" where
  "envelope box2d_ctor genv f = envelope_loop genv f 0 box2d_ctor"


section \<open>\<open>to_string\<close>\<close>

definition endl :: string where
  "endl = [CHR 0x0A]"

text \<open>What \<open>operator<<\<close> writes for a \<open>value_integer\<close>: the decimal digits, after a minus
  sign when it is negative.\<close>

fun show_nat :: "nat \<Rightarrow> string" where
  "show_nat n =
     (if n < 10 then [''0123456789'' ! n]
      else show_nat (n div 10) @ [''0123456789'' ! (n mod 10)])"

declare show_nat.simps [simp del]

definition show_integer :: "value_integer \<Rightarrow> string" where
  "show_integer i = (if i < 0 then ''-'' @ show_nat (nat (- i)) else show_nat (nat i))"

text \<open>
  The loop over the entries of the context, from the iterator \<open>itr\<close> (the entries still
  to come) on; \<open>ss\<close> is what the stream holds. \<open>show_value\<close> is what \<open>operator<<\<close>
  writes for a \<open>value\<close>, which the sources do not hold.
\<close>

fun to_string_loop ::
  "(mapnik_value \<Rightarrow> string) \<Rightarrow> mapnik_value list \<Rightarrow> map_type \<Rightarrow> string \<Rightarrow> string" where
  "to_string_loop show_value d [] ss = ss"
| "to_string_loop show_value d ((first, second) # itr) ss =
     to_string_loop show_value d itr
       (let index = second
        in if index < length d
           then (if d ! second = value_null
                 then ss @ ''  '' @ first @ '':null'' @ endl
                 else ss @ ''  '' @ first @ '':'' @ show_value (d ! second) @ endl)
           else ss)"

definition to_string ::
  "(mapnik_value \<Rightarrow> string) \<Rightarrow> store \<Rightarrow> ('g, 'r) feature_impl \<Rightarrow> string" where
  "to_string show_value h f =
     to_string_loop show_value (data f) (mapping (h (ctx f)))
       (''Feature ( id='' @ show_integer (feature_id f) @ endl)
     @ '')'' @ endl"

text \<open>
  The text as the specification words it: the header line, one line per entry of the
  schema taken in the order of the names and kept when its index is within the array,
  \<open>null\<close> for the null value, and the closing line.
\<close>

definition toText_line :: "(mapnik_value \<Rightarrow> string) \<Rightarrow> key_type \<Rightarrow> mapnik_value \<Rightarrow> string" where
  "toText_line show_value name v =
     ''  '' @ name @ '':'' @ (if v = default_value then ''null'' else show_value v) @ [CHR 0x0A]"

definition toText ::
  "(mapnik_value \<Rightarrow> string) \<Rightarrow> store \<Rightarrow> ('g, 'r) feature_impl \<Rightarrow> string" where
  "toText show_value h f =
     ''Feature ( id='' @ show_integer (feature_id f) @ [CHR 0x0A]
     @ concat (map (\<lambda>(name, index). toText_line show_value name (data f ! index))
                (filter (\<lambda>(name, index). index < length (data f))
                   (sort_key fst (mapping (h (ctx f))))))
     @ '')'' @ [CHR 0x0A]"


section \<open>Features that share contexts\<close>

text \<open>
  A system is a store of contexts and the features built against them. Its operations
  are the ones that build a feature, write to one, and register a name in a context,
  which any holder of the context may do. A \<open>put\<close> that throws leaves the system to its
  caller as it was.
\<close>

record ('g, 'r) system =
  contexts :: store
  features :: "('g, 'r) feature_impl list"

datatype operation =
    Construct context_ptr value_integer
  | Put nat key_type mapnik_value
  | PutNew nat key_type mapnik_value
  | Push context_ptr key_type
  | Add context_ptr key_type size_type

definition init_system :: "('g, 'r) system" where
  "init_system = \<lparr>contexts = (\<lambda>p. context_ctor), features = []\<rparr>"

fun exec :: "operation \<Rightarrow> ('g, 'r) system \<Rightarrow> ('g, 'r) system" where
  "exec (Construct p i) s =
     s\<lparr>features := features s @ [feature_impl_ctor (contexts s) p i]\<rparr>"
| "exec (Put n key val) s =
     (if n < length (features s)
      then (let (res, h, f) = put key val (contexts s) (features s ! n)
            in s\<lparr>contexts := h, features := (features s)[n := f]\<rparr>)
      else s)"
| "exec (PutNew n key val) s =
     (if n < length (features s)
      then (let (h, f) = put_new key val (contexts s) (features s ! n)
            in s\<lparr>contexts := h, features := (features s)[n := f]\<rparr>)
      else s)"
| "exec (Push p name) s =
     s\<lparr>contexts := (contexts s)(p := snd (push name (contexts s p)))\<rparr>"
| "exec (Add p name index) s =
     s\<lparr>contexts := (contexts s)(p := add name index (contexts s p))\<rparr>"

fun run :: "operation list \<Rightarrow> ('g, 'r) system \<Rightarrow> ('g, 'r) system" where
  "run [] s = s"
| "run (x # xs) s = run xs (exec x s)"

text \<open>No feature's array is longer than its context.\<close>

definition within_schema :: "('g, 'r) system \<Rightarrow> bool" where
  "within_schema s =
     list_all (\<lambda>f. length (data f) \<le> context_size (contexts s (ctx f))) (features s)"

text \<open>Every index a context holds is below its size, as the indices \<open>push\<close> assigns are.\<close>

definition dense :: "context_type \<Rightarrow> bool" where
  "dense c = list_all (\<lambda>(name, index). index < context_size c) (mapping c)"

text \<open>A run in which \<open>add\<close> is only given indices up to the size of the context.\<close>

fun add_within :: "operation list \<Rightarrow> ('g, 'r) system \<Rightarrow> bool" where
  "add_within [] s = True"
| "add_within (Add p name index # xs) s =
     (index \<le> context_size (contexts s p) \<and> add_within xs (exec (Add p name index) s))"
| "add_within (x # xs) s = add_within xs (exec x s)"


section \<open>Example data\<close>

text \<open>
  A schema with the names \<open>name\<close> and \<open>pop\<close> at every address, the feature with the
  identifier 7 and a value for each, and a feature that was built when the schema held
  \<open>name\<close> alone, so that its array has one slot.
\<close>

definition nyc_store :: store where
  "nyc_store = (\<lambda>p. \<lparr>mapping = [(''name'', 0), (''pop'', 1)]\<rparr>)"

definition nyc_feature :: "(unit, unit) feature_impl" where
  "nyc_feature =
     \<lparr>feature_id = 7, ctx = 0, data = [value_unicode_string ''NYC'', value_integer 100],
      geom_cont = [], raster = None\<rparr>"

definition short_feature :: "(unit, unit) feature_impl" where
  "short_feature =
     \<lparr>feature_id = 7, ctx = 0, data = [value_unicode_string ''NYC''],
      geom_cont = [], raster = None\<rparr>"

definition name_store :: store where
  "name_store = (\<lambda>p. \<lparr>mapping = [(''name'', 0)]\<rparr>)"

text \<open>The empty store, two features built against the context at address 0, and the
  store after the second of them (the sibling) has written the new key \<open>x\<close>.\<close>

definition empty_store :: store where
  "empty_store = (\<lambda>p. context_ctor)"

definition first_feature :: "(unit, unit) feature_impl" where
  "first_feature = feature_impl_ctor empty_store 0 1"

definition sibling_feature :: "(unit, unit) feature_impl" where
  "sibling_feature = feature_impl_ctor empty_store 0 2"

definition sibling_store :: store where
  "sibling_store = fst (put_new ''x'' (value_integer 1) empty_store sibling_feature)"


text \<open>A run of operations on two features that share the context at address 0, and a
  run that registers a name under an index the context has no slot for.\<close>

definition shared_run :: "operation list" where
  "shared_run =
     [Push 0 ''name'', Construct 0 1, Construct 0 2, PutNew 1 ''pop'' (value_integer 100),
      PutNew 0 ''pop'' (value_integer 5), Add 0 ''zip'' 2,
      Put 0 ''name'' (value_unicode_string ''NYC'')]"

definition sparse_run :: "operation list" where
  "sparse_run = [Add 0 ''a'' 5, Construct 0 1, PutNew 0 ''a'' (value_integer 3)]"

text \<open>A way to write values: strings as they are, integers in decimal.\<close>

definition show_value_example :: "mapnik_value \<Rightarrow> string" where
  "show_value_example v =
     (case v of value_unicode_string s \<Rightarrow> s | value_integer i \<Rightarrow> show_integer i | _ \<Rightarrow> [])"

text \<open>Two geometries, given by their bounding boxes, and an empty box.\<close>

definition box_a :: "int box2d" where
  "box_a = \<lparr>minx = 0, miny = 0, maxx = 10, maxy = 10\<rparr>"

definition box_b :: "int box2d" where
  "box_b = \<lparr>minx = 5, miny = 5, maxx = 20, maxy = 20\<rparr>"

definition box_empty :: "int box2d" where
  "box_empty = \<lparr>minx = 0, miny = 0, maxx = - 1, maxy = - 1\<rparr>"

definition geometries_feature :: "int box2d list \<Rightarrow> (int box2d, unit) feature_impl" where
  "geometries_feature gs =
     \<lparr>feature_id = 7, ctx = 0, data = [], geom_cont = gs, raster = None\<rparr>"


section \<open>Invariants\<close>

text \<open>Every context of the store is an ordered map whose indices are below its size.\<close>

definition store_ok :: "store \<Rightarrow> bool" where
  "store_ok h = (\<forall>p. map_inv (mapping (h p)) \<and> dense (h p))"

definition sys_inv :: "('g, 'r) system \<Rightarrow> bool" where
  "sys_inv s = (store_ok (contexts s) \<and> within_schema s)"


section \<open>The ordered map keeps its order\<close>

lemma map_find_None_iff: "map_find m k = None \<longleftrightarrow> k \<notin> fst ` set m"
  by (induction m) (auto split: if_splits)

lemma map_find_Some_key: "map_find m k = Some i \<Longrightarrow> k \<in> fst ` set m"
  by (induction m) (auto split: if_splits)

lemma map_insert_present:
  "map_inv m \<Longrightarrow> k \<in> fst ` set m \<Longrightarrow> map_insert (k, i) m = m"
  unfolding map_inv_def
  by (induction m) (force split: if_splits)+

lemma length_map_insert_absent:
  "k \<notin> fst ` set m \<Longrightarrow> length (map_insert (k, i) m) = Suc (length m)"
  by (induction m) auto

lemma map_find_insert_absent:
  "k \<notin> fst ` set m \<Longrightarrow> map_find (map_insert (k, i) m) k = Some i"
  by (induction m) auto

lemma map_find_insert_other:
  "k' \<noteq> k \<Longrightarrow> map_find (map_insert (k, i) m) k' = map_find m k'"
  by (induction m) auto

lemma set_map_insert_absent:
  "k \<notin> fst ` set m \<Longrightarrow> set (map_insert (k, i) m) = insert (k, i) (set m)"
  by (induction m) (auto split: if_splits)

lemma keys_map_insert: "fst ` set (map_insert (k, i) m) = insert k (fst ` set m)"
  by (induction m) (force split: if_splits)+

text \<open>The empty map is ordered, and \<open>insert\<close> keeps a map ordered: every map that
  \<open>push\<close> and \<open>add\<close> build from the empty one satisfies \<open>map_inv\<close>.\<close>

lemma map_inv_empty: "map_inv []"
  by (simp add: map_inv_def)

lemma map_inv_insert: "map_inv m \<Longrightarrow> map_inv (map_insert (k, i) m)"
  unfolding map_inv_def
proof (induction m)
  case Nil
  then show ?case by simp
next
  case (Cons e m)
  obtain k' i' where e: "e = (k', i')" by (cases e)
  have keys: "fst ` set (map_insert (k, i) m) = insert k (fst ` set m)"
    by (rule keys_map_insert)
  from Cons e show ?case
    using keys by (auto split: if_splits)
qed

lemma map_inv_push: "map_inv (mapping c) \<Longrightarrow> map_inv (mapping (snd (push name c)))"
  by (simp add: push_def Let_def map_inv_insert)

lemma map_inv_add: "map_inv (mapping c) \<Longrightarrow> map_inv (mapping (add name index c))"
  by (simp add: add_def map_inv_insert)


lemma length_map_insert_le: "length m \<le> length (map_insert (k, i) m)"
  by (induction m) auto

lemma map_find_Some_mem: "map_find m k = Some i \<Longrightarrow> (k, i) \<in> set m"
  by (induction m) (auto split: if_splits)


section \<open>What \<open>push\<close> and \<open>put_new\<close> do, case by case\<close>

lemma push_absent:
  assumes "map_find (mapping c) name = None"
  shows "context_size (snd (push name c)) = Suc (context_size c)"
    and "map_find (mapping (snd (push name c))) name = Some (context_size c)"
  using assms
  by (simp_all add: push_def context_size_def Let_def map_find_None_iff
      length_map_insert_absent map_find_insert_absent)

lemma context_size_push: "context_size c \<le> context_size (snd (push name c))"
  by (simp add: push_def Let_def context_size_def length_map_insert_le)

lemma context_size_add: "context_size c \<le> context_size (add name index c)"
  by (simp add: add_def context_size_def length_map_insert_le)

lemma fst_put_new:
  "fst (put_new key val h f) = h
   \<or> fst (put_new key val h f) = h(ctx f := snd (push key (h (ctx f))))"
  by (simp add: put_new_def Let_def split: prod.splits)

lemma ctx_put_new: "ctx (snd (put_new key val h f)) = ctx f"
  by (simp add: put_new_def Let_def split: prod.splits)

text \<open>The key is there, its slot is not, and the array is not as long as the schema:
  nothing happens.\<close>

lemma put_new_found_outside:
  assumes inv: "map_inv (mapping (h (ctx f)))"
    and fnd: "map_find (mapping (h (ctx f))) key = Some i"
    and out: "length (data f) \<le> i"
    and behind: "length (data f) \<noteq> context_size (h (ctx f))"
  shows "put_new key val h f = (h, f)"
proof -
  from fnd have "key \<in> fst ` set (mapping (h (ctx f)))"
    by (rule map_find_Some_key)
  with inv have "map_insert (key, length (mapping (h (ctx f)))) (mapping (h (ctx f)))
      = mapping (h (ctx f))"
    by (rule map_insert_present)
  then have "push key (h (ctx f)) = (context_size (h (ctx f)), h (ctx f))"
    by (simp add: push_def context_size_def)
  with fnd out behind show ?thesis
    by (simp add: put_new_def)
qed

text \<open>The key is not there and the array is not as long as the schema: the schema
  takes the key, the feature is left alone.\<close>

lemma put_new_absent_behind:
  assumes fnd: "map_find (mapping (h (ctx f))) key = None"
    and behind: "length (data f) \<noteq> context_size (h (ctx f))"
  shows "put_new key val h f = (h(ctx f := snd (push key (h (ctx f)))), f)"
  using assms by (simp add: put_new_def push_def context_size_def Let_def)

text \<open>The key is not there and the array is as long as the schema: both grow.\<close>

lemma put_new_absent_level:
  assumes fnd: "map_find (mapping (h (ctx f))) key = None"
    and level: "length (data f) = context_size (h (ctx f))"
  shows "put_new key val h f
    = (h(ctx f := snd (push key (h (ctx f)))), f\<lparr>data := data f @ [val]\<rparr>)"
  using assms by (simp add: put_new_def push_def context_size_def Let_def)


section \<open>Registering a name twice\<close>

text \<open>
  Claim C2. When the name is already in the schema, \<open>push\<close> changes nothing: the size
  and the index of every name are what they were, and no slot is added. What it returns
  is the candidate index, the size of the schema, whatever index the name has; the two
  differ whenever the stored index is not the size itself.
\<close>

theorem push_present:
  assumes "map_inv (mapping c)" and "map_find (mapping c) name = Some i"
  shows "push name c = (context_size c, c)
       \<and> context_size (snd (push name c)) = context_size c
       \<and> (\<forall>k. map_find (mapping (snd (push name c))) k = map_find (mapping c) k)
       \<and> (i \<noteq> context_size c \<longrightarrow> fst (push name c) \<noteq> i)"
proof -
  from assms(2) have "name \<in> fst ` set (mapping c)"
    by (rule map_find_Some_key)
  with assms(1) have "map_insert (name, length (mapping c)) (mapping c) = mapping c"
    by (rule map_insert_present)
  then have "push name c = (context_size c, c)"
    by (simp add: push_def context_size_def)
  then show ?thesis by simp
qed

theorem push_present_witness:
  "map_inv [(''name'', 0), (''pop'', 1)]
   \<and> map_find [(''name'', 0), (''pop'', 1)] ''name'' = Some 0
   \<and> push ''name'' \<lparr>mapping = [(''name'', 0), (''pop'', 1)]\<rparr>
       = (2, \<lparr>mapping = [(''name'', 0), (''pop'', 1)]\<rparr>)
   \<and> fst (push ''name'' \<lparr>mapping = [(''name'', 0), (''pop'', 1)]\<rparr>) \<noteq> 0"
  using push_present [of "\<lparr>mapping = [(''name'', 0), (''pop'', 1)]\<rparr>" "''name''" 0]
  by (simp add: map_inv_def context_size_def)


section \<open>The strict write\<close>

text \<open>
  Claim C3. \<open>put\<close> succeeds if and only if the key is in the schema with an index below
  the length of the feature's array. When it succeeds, the array is the old one with
  that one slot overwritten, and nothing else changes; when it does not, it throws
  \<open>std::out_of_range\<close>, which reaches the caller.
\<close>

theorem put_succeeds_iff:
  "(fst (put key val h f) = Inr ()
      \<longleftrightarrow> (\<exists>i. map_find (mapping (h (ctx f))) key = Some i \<and> i < length (data f)))
   \<and> (\<forall>i. map_find (mapping (h (ctx f))) key = Some i \<and> i < length (data f)
         \<longrightarrow> put key val h f = (Inr (), h, f\<lparr>data := (data f)[i := val]\<rparr>))
   \<and> (\<not> (\<exists>i. map_find (mapping (h (ctx f))) key = Some i \<and> i < length (data f))
         \<longrightarrow> fst (put key val h f)
             = Inl (out_of_range (''Key does not exist: '' @ [CHR 0x27] @ key @ [CHR 0x27])))"
  by (cases "map_find (mapping (h (ctx f))) key") (auto simp: put_def)

theorem put_succeeds_iff_witness:
  "put ''name'' (value_bool True) nyc_store short_feature
     = (Inr (), nyc_store, short_feature\<lparr>data := [value_bool True]\<rparr>)
   \<and> map_find (mapping (nyc_store (ctx short_feature))) ''pop'' = Some 1
   \<and> \<not> 1 < length (data short_feature)
   \<and> fst (put ''pop'' (value_integer 100) nyc_store short_feature)
       = Inl (out_of_range (''Key does not exist: '' @ [CHR 0x27] @ ''pop'' @ [CHR 0x27]))
   \<and> map_find (mapping (nyc_store (ctx short_feature))) ''zip'' = None
   \<and> fst (put ''zip'' (value_integer 100) nyc_store short_feature)
       = Inl (out_of_range (''Key does not exist: '' @ [CHR 0x27] @ ''zip'' @ [CHR 0x27]))"
  using put_succeeds_iff [of "''name''" "value_bool True" nyc_store short_feature]
    put_succeeds_iff [of "''pop''" "value_integer 100" nyc_store short_feature]
    put_succeeds_iff [of "''zip''" "value_integer 100" nyc_store short_feature]
  by (simp add: nyc_store_def short_feature_def)

text \<open>
  Claim C10. A \<open>put\<close> that throws has changed nothing: the feature (its array, its
  identifier, its geometries, its raster) and the store, hence the schema, are the ones
  it was called with.
\<close>

theorem put_throws_unchanged:
  "fst (put key val h f) = Inl e \<Longrightarrow> snd (put key val h f) = (h, f)"
  by (auto simp: put_def Let_def split: if_splits)

theorem put_throws_unchanged_witness:
  "fst (put ''pop'' (value_integer 100) nyc_store short_feature)
     = Inl (out_of_range (''Key does not exist: '' @ [CHR 0x27] @ ''pop'' @ [CHR 0x27]))
   \<and> snd (put ''pop'' (value_integer 100) nyc_store short_feature) = (nyc_store, short_feature)"
  using put_throws_unchanged [of "''pop''" "value_integer 100" nyc_store short_feature
      "out_of_range (''Key does not exist: '' @ [CHR 0x27] @ ''pop'' @ [CHR 0x27])"]
  by (simp add: put_def nyc_store_def short_feature_def)


section \<open>The safe read\<close>

text \<open>
  Claim C4. \<open>get\<close> by key and \<open>get\<close> by index have no failing branch. They return the
  default value when the key is not in the schema, and when the index, found under the
  key or given, is not below the length of the array; otherwise they return the value
  stored at the index.
\<close>

theorem get_never_fails:
  "(map_find (mapping (h (ctx f))) key = None \<longrightarrow> get key h f = default_value)
   \<and> (\<forall>i. map_find (mapping (h (ctx f))) key = Some i \<and> length (data f) \<le> i
         \<longrightarrow> get key h f = default_value)
   \<and> (\<forall>i. map_find (mapping (h (ctx f))) key = Some i \<and> i < length (data f)
         \<longrightarrow> get key h f = data f ! i)
   \<and> (length (data f) \<le> index \<longrightarrow> get_index index f = default_value)
   \<and> (index < length (data f) \<longrightarrow> get_index index f = data f ! index)"
  by (auto simp: get_def get_index_def)

theorem get_never_fails_witness:
  "map_find (mapping (nyc_store (ctx short_feature))) ''zip'' = None
   \<and> get ''zip'' nyc_store short_feature = default_value
   \<and> map_find (mapping (nyc_store (ctx short_feature))) ''pop'' = Some 1
   \<and> length (data short_feature) \<le> 1
   \<and> get ''pop'' nyc_store short_feature = default_value
   \<and> map_find (mapping (nyc_store (ctx short_feature))) ''name'' = Some 0
   \<and> 0 < length (data short_feature)
   \<and> get ''name'' nyc_store short_feature = value_unicode_string ''NYC''
   \<and> get_index 1 short_feature = default_value
   \<and> get_index 0 short_feature = value_unicode_string ''NYC''"
  using get_never_fails [of nyc_store short_feature "''zip''" 1]
    get_never_fails [of nyc_store short_feature "''pop''" 0]
    get_never_fails [of nyc_store short_feature "''name''" 0]
  by (simp add: nyc_store_def short_feature_def)


section \<open>Construction\<close>

text \<open>
  Claim C5. A feature built against a schema of size \<open>K\<close> has an array of length \<open>K\<close>,
  the size of the schema at that moment, every entry of which is the default value; it
  has no geometry and no raster.
\<close>

theorem ctor_snapshot:
  "context_size (h c) = K \<Longrightarrow>
     feature_size (feature_impl_ctor h c i :: ('g, 'r) feature_impl) = K
     \<and> data (feature_impl_ctor h c i :: ('g, 'r) feature_impl) = replicate K default_value
     \<and> (\<forall>j < K. get_index j (feature_impl_ctor h c i :: ('g, 'r) feature_impl) = default_value)
     \<and> geom_cont (feature_impl_ctor h c i :: ('g, 'r) feature_impl) = []
     \<and> num_geometries (feature_impl_ctor h c i :: ('g, 'r) feature_impl) = 0
     \<and> raster (feature_impl_ctor h c i :: ('g, 'r) feature_impl) = None
     \<and> feature_id (feature_impl_ctor h c i :: ('g, 'r) feature_impl) = i
     \<and> ctx (feature_impl_ctor h c i :: ('g, 'r) feature_impl) = c"
  by (auto simp: feature_impl_ctor_def feature_size_def context_size_def get_index_def
      num_geometries_def)

theorem ctor_snapshot_witness:
  "context_size (nyc_store 0) = 2
   \<and> feature_size (feature_impl_ctor nyc_store 0 7 :: (unit, unit) feature_impl) = 2
   \<and> data (feature_impl_ctor nyc_store 0 7 :: (unit, unit) feature_impl)
       = [default_value, default_value]
   \<and> geom_cont (feature_impl_ctor nyc_store 0 7 :: (unit, unit) feature_impl) = []
   \<and> raster (feature_impl_ctor nyc_store 0 7 :: (unit, unit) feature_impl) = None"
  using ctor_snapshot [of nyc_store 0 2 7, where ?'g = unit and ?'r = unit]
  by (simp add: nyc_store_def context_size_def numeral_2_eq_2)


section \<open>The lenient write\<close>

text \<open>
  Claim C6. On a feature whose array is as long as its schema, \<open>put_new\<close> with a key
  that is not in the schema adds one slot to the schema, under the index that was the
  length of the array, appends the value to the array, which grows by exactly one, and
  a \<open>get\<close> of the key on the feature then returns the value.
\<close>

theorem put_new_fresh_key:
  assumes "map_find (mapping (h (ctx f))) key = None"
    and "length (data f) = context_size (h (ctx f))"
  shows "context_size (fst (put_new key val h f) (ctx f)) = Suc (context_size (h (ctx f)))
       \<and> map_find (mapping (fst (put_new key val h f) (ctx f))) key = Some (length (data f))
       \<and> data (snd (put_new key val h f)) = data f @ [val]
       \<and> feature_size (snd (put_new key val h f)) = Suc (feature_size f)
       \<and> ctx (snd (put_new key val h f)) = ctx f
       \<and> get key (fst (put_new key val h f)) (snd (put_new key val h f)) = val"
proof -
  have pn: "put_new key val h f
      = (h(ctx f := snd (push key (h (ctx f)))), f\<lparr>data := data f @ [val]\<rparr>)"
    using assms by (rule put_new_absent_level)
  have size: "context_size (snd (push key (h (ctx f)))) = Suc (length (data f))"
    and fnd: "map_find (mapping (snd (push key (h (ctx f))))) key = Some (length (data f))"
    using push_absent [OF assms(1)] assms(2) by simp_all
  show ?thesis
    by (simp add: pn size fnd assms(2) [symmetric] feature_size_def get_def get_index_def)
qed

theorem put_new_fresh_key_witness:
  "map_find (mapping (name_store (ctx short_feature))) ''pop'' = None
   \<and> length (data short_feature) = context_size (name_store (ctx short_feature))
   \<and> context_size (fst (put_new ''pop'' (value_integer 100) name_store short_feature) 0) = 2
   \<and> data (snd (put_new ''pop'' (value_integer 100) name_store short_feature))
       = [value_unicode_string ''NYC'', value_integer 100]
   \<and> get ''pop'' (fst (put_new ''pop'' (value_integer 100) name_store short_feature))
        (snd (put_new ''pop'' (value_integer 100) name_store short_feature))
       = value_integer 100"
  using put_new_fresh_key [of name_store short_feature "''pop''" "value_integer 100"]
  by (simp add: name_store_def short_feature_def context_size_def)


section \<open>The lenient write on a feature that has fallen behind\<close>

text \<open>
  Claim C1, as amended. Two features share a context; the array of the first, \<open>r\<close>, is
  within the schema, and the sibling writes with \<open>put_new\<close> a key that the schema does
  not hold. The schema grows by one, and \<open>r\<close> has fallen behind it. A \<open>put_new\<close> on \<open>r\<close>
  with that same key then changes nothing at all: the schema does not grow again, the
  array of \<open>r\<close> keeps its length, the value is dropped, and a \<open>get\<close> of the key on \<open>r\<close>
  returns the default value. A \<open>put_new\<close> on \<open>r\<close> with a key that the schema still does
  not hold does grow the schema by one; it too leaves \<open>r\<close> as it was, and \<open>get\<close> returns
  the default value.
\<close>

theorem put_new_after_sibling:
  assumes shared: "ctx sib = ctx r"
    and inv: "map_inv (mapping (h (ctx r)))"
    and within: "length (data r) \<le> context_size (h (ctx r))"
    and fresh: "map_find (mapping (h (ctx r))) key = None"
  shows "(let h1 = fst (put_new key val' h sib)
          in context_size (h1 (ctx r)) = Suc (context_size (h (ctx r)))
           \<and> length (data r) < context_size (h1 (ctx r))
           \<and> put_new key val h1 r = (h1, r)
           \<and> get key h1 r = default_value
           \<and> (map_find (mapping (h1 (ctx r))) key' = None \<longrightarrow>
                context_size (fst (put_new key' val h1 r) (ctx r))
                  = Suc (context_size (h1 (ctx r)))
                \<and> snd (put_new key' val h1 r) = r
                \<and> get key' (fst (put_new key' val h1 r)) r = default_value))"
proof -
  let ?p = "ctx r"
  define h1 where h1: "h1 = fst (put_new key val' h sib)"
  have h1_eq: "h1 = h(?p := snd (push key (h ?p)))"
    using fresh shared by (simp add: h1 put_new_def Let_def split: prod.splits)
  have size1: "context_size (h1 ?p) = Suc (context_size (h ?p))"
    using push_absent(1) [OF fresh] by (simp add: h1_eq)
  have find1: "map_find (mapping (h1 ?p)) key = Some (context_size (h ?p))"
    using push_absent(2) [OF fresh] by (simp add: h1_eq)
  have inv1: "map_inv (mapping (h1 ?p))"
    using inv by (simp add: h1_eq map_inv_push)
  have behind: "length (data r) < context_size (h1 ?p)"
    using within size1 by simp
  then have neq: "length (data r) \<noteq> context_size (h1 ?p)"
    by simp
  have dropped: "put_new key val h1 r = (h1, r)"
    using inv1 find1 within neq by (rule put_new_found_outside)
  have read: "get key h1 r = default_value"
    using find1 within by (simp add: get_def get_index_def)
  have other: "context_size (fst (put_new key' val h1 r) ?p) = Suc (context_size (h1 ?p))
            \<and> snd (put_new key' val h1 r) = r
            \<and> get key' (fst (put_new key' val h1 r)) r = default_value"
    if absent: "map_find (mapping (h1 ?p)) key' = None"
  proof -
    have pn: "put_new key' val h1 r = (h1(?p := snd (push key' (h1 ?p))), r)"
      using absent neq by (rule put_new_absent_behind)
    show ?thesis
      using push_absent [OF absent] behind
      by (simp add: pn get_def get_index_def)
  qed
  from size1 behind dropped read other show ?thesis
    unfolding Let_def h1 [symmetric] by blast
qed


theorem put_new_after_sibling_witness:
  "ctx sibling_feature = ctx first_feature
   \<and> map_inv (mapping (empty_store (ctx first_feature)))
   \<and> length (data first_feature) \<le> context_size (empty_store (ctx first_feature))
   \<and> map_find (mapping (empty_store (ctx first_feature))) ''x'' = None
   \<and> sibling_store = fst (put_new ''x'' (value_integer 1) empty_store sibling_feature)
   \<and> context_size (sibling_store 0) = 1
   \<and> put_new ''x'' (value_integer 2) sibling_store first_feature = (sibling_store, first_feature)
   \<and> get ''x'' sibling_store first_feature = default_value
   \<and> map_find (mapping (sibling_store (ctx first_feature))) ''y'' = None
   \<and> context_size (fst (put_new ''y'' (value_integer 2) sibling_store first_feature) 0) = 2
   \<and> snd (put_new ''y'' (value_integer 2) sibling_store first_feature) = first_feature"
  using put_new_after_sibling [where sib = sibling_feature and r = first_feature
      and h = empty_store and key = "''x''"
      and val' = "value_integer 1" and val = "value_integer 2" and key' = "''y''"]
  by (simp add: sibling_store_def first_feature_def sibling_feature_def empty_store_def
      feature_impl_ctor_def context_ctor_def map_inv_def context_size_def put_new_def push_def)


text \<open>
  Claim C1 as it was stated says that the schema grows when the key is the one the
  sibling registered. It does not: the context at address 0 is empty, the sibling writes
  \<open>x\<close>, the schema has size 1 and the first feature an array of length 0; after the first
  feature has written \<open>x\<close> the schema still has size 1.
\<close>

theorem put_new_sibling_key_counterexample:
  "ctx sibling_feature = ctx first_feature
   \<and> sibling_store = fst (put_new ''x'' (value_integer 1) empty_store sibling_feature)
   \<and> context_size (empty_store (ctx first_feature)) = 0
   \<and> context_size (sibling_store (ctx first_feature)) = 1
   \<and> length (data first_feature) < context_size (sibling_store (ctx first_feature))
   \<and> context_size (fst (put_new ''x'' (value_integer 2) sibling_store first_feature)
        (ctx first_feature)) = 1
   \<and> \<not> context_size (sibling_store (ctx first_feature))
        < context_size (fst (put_new ''x'' (value_integer 2) sibling_store first_feature)
            (ctx first_feature))"
  by (simp add: sibling_store_def first_feature_def sibling_feature_def empty_store_def
      feature_impl_ctor_def context_ctor_def context_size_def put_new_def push_def)

section \<open>The array stays within the schema\<close>

lemma dense_iff: "dense c \<longleftrightarrow> (\<forall>(name, index) \<in> set (mapping c). index < length (mapping c))"
  by (simp add: dense_def list_all_iff context_size_def)

lemma dense_insert:
  assumes "map_inv (mapping c)" and "dense c" and "index \<le> length (mapping c)"
  shows "dense (c\<lparr>mapping := map_insert (name, index) (mapping c)\<rparr>)"
proof (cases "name \<in> fst ` set (mapping c)")
  case True
  with assms(1) have "map_insert (name, index) (mapping c) = mapping c"
    by (rule map_insert_present)
  with assms(2) show ?thesis by simp
next
  case False
  then have "set (map_insert (name, index) (mapping c)) = insert (name, index) (set (mapping c))"
    and "length (map_insert (name, index) (mapping c)) = Suc (length (mapping c))"
    by (simp_all add: set_map_insert_absent length_map_insert_absent)
  with assms(2,3) show ?thesis
    by (auto simp: dense_iff)
qed

lemma dense_push: "map_inv (mapping c) \<Longrightarrow> dense c \<Longrightarrow> dense (snd (push name c))"
  by (simp add: push_def Let_def dense_insert)

lemma dense_add:
  "map_inv (mapping c) \<Longrightarrow> dense c \<Longrightarrow> index \<le> context_size c \<Longrightarrow> dense (add name index c)"
  by (simp add: add_def context_size_def dense_insert)

lemma store_ok_put_new: "store_ok h \<Longrightarrow> store_ok (fst (put_new key val h f))"
  using fst_put_new [of key val h f]
  by (auto simp: store_ok_def map_inv_push dense_push)

lemma context_size_put_new: "context_size (h p) \<le> context_size (fst (put_new key val h f) p)"
  using fst_put_new [of key val h f]
  by (auto simp: context_size_push)

lemma put_new_within:
  assumes inv: "map_inv (mapping (h (ctx f)))" and d: "dense (h (ctx f))"
    and within: "length (data f) \<le> context_size (h (ctx f))"
  shows "length (data (snd (put_new key val h f)))
         \<le> context_size (fst (put_new key val h f) (ctx f))"
proof (cases "map_find (mapping (h (ctx f))) key")
  case None
  show ?thesis
  proof (cases "length (data f) = context_size (h (ctx f))")
    case True
    with None have "put_new key val h f
        = (h(ctx f := snd (push key (h (ctx f)))), f\<lparr>data := data f @ [val]\<rparr>)"
      by (rule put_new_absent_level)
    with True show ?thesis
      using push_absent(1) [OF None] by simp
  next
    case False
    with None have "put_new key val h f = (h(ctx f := snd (push key (h (ctx f)))), f)"
      by (rule put_new_absent_behind)
    with within show ?thesis
      using context_size_push [of "h (ctx f)" key] by simp
  qed
next
  case (Some i)
  show ?thesis
  proof (cases "i < length (data f)")
    case True
    with Some within show ?thesis
      by (simp add: put_new_def)
  next
    case False
    from Some have "(key, i) \<in> set (mapping (h (ctx f)))"
      by (rule map_find_Some_mem)
    with d have "i < context_size (h (ctx f))"
      by (auto simp: dense_iff context_size_def)
    with False have "length (data f) \<noteq> context_size (h (ctx f))"
      by simp
    with inv Some False have "put_new key val h f = (h, f)"
      by (simp add: put_new_found_outside)
    with within show ?thesis by simp
  qed
qed


lemma within_schema_iff:
  "within_schema s \<longleftrightarrow> (\<forall>f \<in> set (features s). length (data f) \<le> context_size (contexts s (ctx f)))"
  by (simp add: within_schema_def list_all_iff)

lemma sys_inv_init: "sys_inv init_system"
  by (simp add: sys_inv_def store_ok_def init_system_def within_schema_def context_ctor_def
      map_inv_def dense_def)

lemma put_effect:
  "fst (snd (put key val h f)) = h
   \<and> ctx (snd (snd (put key val h f))) = ctx f
   \<and> length (data (snd (snd (put key val h f)))) = length (data f)"
  by (simp add: put_def Let_def)

lemma set_list_update_cases: "g \<in> set (xs[n := f]) \<Longrightarrow> g = f \<or> g \<in> set xs"
  using set_update_subset_insert [of xs n f] by auto

lemma sys_inv_Construct: "sys_inv s \<Longrightarrow> sys_inv (exec (Construct p i) s)"
  by (auto simp: sys_inv_def within_schema_iff feature_impl_ctor_def context_size_def)

lemma sys_inv_Put: "sys_inv s \<Longrightarrow> sys_inv (exec (Put n key val) s)"
proof (cases "n < length (features s)")
  case False
  assume "sys_inv s"
  with False show ?thesis by simp
next
  case True
  assume inv: "sys_inv s"
  obtain res h f where p: "put key val (contexts s) (features s ! n) = (res, h, f)"
    by (cases "put key val (contexts s) (features s ! n)") auto
  from put_effect [of key val "contexts s" "features s ! n"] p
  have h: "h = contexts s" and c: "ctx f = ctx (features s ! n)"
    and l: "length (data f) = length (data (features s ! n))"
    by simp_all
  from True have mem: "features s ! n \<in> set (features s)"
    by simp
  from True p have e: "exec (Put n key val) s = s\<lparr>contexts := h, features := (features s)[n := f]\<rparr>"
    by simp
  show ?thesis
    unfolding e using inv mem
    by (auto simp: sys_inv_def within_schema_iff h c l dest!: set_list_update_cases)
qed

lemma sys_inv_PutNew: "sys_inv s \<Longrightarrow> sys_inv (exec (PutNew n key val) s)"
proof (cases "n < length (features s)")
  case False
  assume "sys_inv s"
  with False show ?thesis by simp
next
  case True
  assume inv: "sys_inv s"
  let ?f = "features s ! n"
  obtain h f where p: "put_new key val (contexts s) ?f = (h, f)"
    by (cases "put_new key val (contexts s) ?f") auto
  from True have mem: "?f \<in> set (features s)"
    by simp
  from inv have ok: "store_ok (contexts s)"
    and within: "\<forall>g \<in> set (features s). length (data g) \<le> context_size (contexts s (ctx g))"
    by (simp_all add: sys_inv_def within_schema_iff)
  from store_ok_put_new [OF ok, of key val ?f] p have ok': "store_ok h"
    by simp
  from ctx_put_new [of key val "contexts s" ?f] p have c: "ctx f = ctx ?f"
    by simp
  from ok within mem have "length (data (snd (put_new key val (contexts s) ?f)))
      \<le> context_size (fst (put_new key val (contexts s) ?f) (ctx ?f))"
    by (intro put_new_within) (simp_all add: store_ok_def)
  with p c have new: "length (data f) \<le> context_size (h (ctx f))"
    by simp
  have old: "length (data g) \<le> context_size (h (ctx g))" if "g \<in> set (features s)" for g
  proof -
    from within that have "length (data g) \<le> context_size (contexts s (ctx g))"
      by simp
    also from context_size_put_new [of "contexts s" "ctx g" key val ?f] p
    have "\<dots> \<le> context_size (h (ctx g))"
      by simp
    finally show ?thesis .
  qed
  from True p have e: "exec (PutNew n key val) s = s\<lparr>contexts := h, features := (features s)[n := f]\<rparr>"
    by simp
  show ?thesis
    unfolding e using ok' new old
    by (auto simp: sys_inv_def within_schema_iff dest!: set_list_update_cases)
qed

lemma sys_inv_Push: "sys_inv s \<Longrightarrow> sys_inv (exec (Push p name) s)"
proof -
  assume inv: "sys_inv s"
  have "length (data g) \<le> context_size (snd (push name (contexts s (ctx g))))"
    if "length (data g) \<le> context_size (contexts s (ctx g))" for g :: "('a, 'b) feature_impl"
    using that context_size_push [of "contexts s (ctx g)" name] by simp
  with inv show ?thesis
    by (auto simp: sys_inv_def within_schema_iff store_ok_def map_inv_push dense_push)
qed

lemma sys_inv_Add:
  "sys_inv s \<Longrightarrow> index \<le> context_size (contexts s p) \<Longrightarrow> sys_inv (exec (Add p name index) s)"
proof -
  assume inv: "sys_inv s" and le: "index \<le> context_size (contexts s p)"
  have "length (data g) \<le> context_size (add name index (contexts s (ctx g)))"
    if "length (data g) \<le> context_size (contexts s (ctx g))" for g :: "('a, 'b) feature_impl"
    using that context_size_add [of "contexts s (ctx g)" name index] by simp
  with inv le show ?thesis
    by (auto simp: sys_inv_def within_schema_iff store_ok_def map_inv_add dense_add)
qed

lemma sys_inv_exec:
  assumes "sys_inv s" and "add_within (x # xs) s"
  shows "sys_inv (exec x s)"
proof (cases x)
  case (Construct p i)
  with assms(1) show ?thesis by (simp only: sys_inv_Construct)
next
  case (Put n key val)
  with assms(1) show ?thesis by (simp only: sys_inv_Put)
next
  case (PutNew n key val)
  with assms(1) show ?thesis by (simp only: sys_inv_PutNew)
next
  case (Push p name)
  with assms(1) show ?thesis by (simp only: sys_inv_Push)
next
  case (Add p name index)
  with assms(2) have "index \<le> context_size (contexts s p)"
    by simp
  with assms(1) Add show ?thesis by (simp only: sys_inv_Add)
qed

lemma add_within_Cons: "add_within (x # xs) s \<Longrightarrow> add_within xs (exec x s)"
  by (cases x) simp_all

lemma sys_inv_run: "sys_inv s \<Longrightarrow> add_within ops s \<Longrightarrow> sys_inv (run ops s)"
proof (induction ops arbitrary: s)
  case Nil
  then show ?case by simp
next
  case (Cons x xs)
  from Cons.prems have "sys_inv (exec x s)"
    by (rule sys_inv_exec)
  moreover from Cons.prems(2) have "add_within xs (exec x s)"
    by (rule add_within_Cons)
  ultimately have "sys_inv (run xs (exec x s))"
    by (rule Cons.IH)
  then show ?case by simp
qed

text \<open>
  Claim C9, as amended. Start from contexts that are empty and no feature. After any
  run of the operations that build a feature, \<open>put\<close>, \<open>put_new\<close>, \<open>push\<close> and \<open>add\<close>,
  on any feature and any context, in which every \<open>add\<close> is given an index that is not
  above the size its context has at that moment, the array of every feature is at most
  as long as its schema.
\<close>

theorem array_within_schema:
  assumes "add_within ops (init_system :: ('g, 'r) system)"
  shows "\<forall>f \<in> set (features (run ops (init_system :: ('g, 'r) system))).
           feature_size f \<le> context_size (contexts (run ops (init_system :: ('g, 'r) system)) (ctx f))"
proof -
  from sys_inv_init assms have "sys_inv (run ops (init_system :: ('g, 'r) system))"
    by (rule sys_inv_run)
  then show ?thesis
    by (simp add: sys_inv_def within_schema_iff feature_size_def)
qed


theorem array_within_schema_witness:
  "add_within shared_run (init_system :: (unit, unit) system)
   \<and> map (\<lambda>f. (feature_size f,
                  context_size (contexts (run shared_run (init_system :: (unit, unit) system))
                    (ctx f))))
        (features (run shared_run (init_system :: (unit, unit) system))) = [(1, 3), (2, 3)]"
  using array_within_schema [of shared_run, where ?'g = unit and ?'r = unit]
  by (simp add: shared_run_def init_system_def context_ctor_def add_def feature_impl_ctor_def
      put_new_def put_def push_def context_size_def feature_size_def)

text \<open>
  Claim C9 as it was stated lets \<open>add\<close> register any index. Then it fails: \<open>add\<close> puts
  the name \<open>a\<close> under the index 5 into the empty context, a feature is built, with an
  array of length 1, and writes \<open>a\<close> with \<open>put_new\<close>. The index 5 is not within the
  array, \<open>push\<close> returns 1 without registering anything, 1 is the length of the array,
  and the value is appended: the array has length 2, the schema has size 1.
\<close>

theorem array_beyond_schema_counterexample:
  "features (run sparse_run (init_system :: (unit, unit) system))
     = [\<lparr>feature_id = 1, ctx = 0, data = [default_value, value_integer 3],
         geom_cont = [], raster = None\<rparr>]
   \<and> mapping (contexts (run sparse_run (init_system :: (unit, unit) system)) 0) = [(''a'', 5)]
   \<and> \<not> within_schema (run sparse_run (init_system :: (unit, unit) system))"
  by (simp add: sparse_run_def init_system_def context_ctor_def add_def feature_impl_ctor_def
      put_new_def push_def within_schema_def context_size_def)

section \<open>The bounding box of the geometries\<close>

lemma envelope_loop_expand:
  "0 < i \<Longrightarrow>
     envelope_loop genv f i result
       = foldl expand_to_include result (map genv (drop i (geom_cont f)))"
proof (induction "num_geometries f - i" arbitrary: i result)
  case 0
  then have "num_geometries f \<le> i"
    by simp
  then show ?case
    by (subst envelope_loop.simps) (simp add: num_geometries_def)
next
  case (Suc k)
  then have less: "i < num_geometries f" and k: "k = num_geometries f - Suc i"
    by simp_all
  from less have d: "drop i (geom_cont f) = geom_cont f ! i # drop (Suc i) (geom_cont f)"
    by (simp add: num_geometries_def Cons_nth_drop_Suc)
  from less Suc.prems have "envelope_loop genv f i result
      = envelope_loop genv f (Suc i) (expand_to_include result (genv (geom_cont f ! i)))"
    by (subst envelope_loop.simps) simp
  also have "\<dots> = foldl expand_to_include
      (expand_to_include result (genv (geom_cont f ! i)))
      (map genv (drop (Suc i) (geom_cont f)))"
    using k by (rule Suc.hyps(1)) simp
  finally show ?case
    by (simp add: d)
qed

lemma init_from_box: "init b (minx box) (miny box) (maxx box) (maxy box) = box"
  by (simp add: init_def)

lemma envelope_Nil: "geom_cont f = [] \<Longrightarrow> envelope box2d_ctor genv f = box2d_ctor"
  unfolding envelope_def by (subst envelope_loop.simps) (simp add: num_geometries_def)

lemma envelope_Cons:
  assumes "geom_cont f = g # gs"
  shows "envelope box2d_ctor genv f
    = foldl expand_to_include
        (init box2d_ctor (minx (genv g)) (miny (genv g)) (maxx (genv g)) (maxy (genv g)))
        (map genv gs)"
proof -
  have "envelope box2d_ctor genv f
      = envelope_loop genv f (Suc 0)
          (init box2d_ctor (minx (genv g)) (miny (genv g)) (maxx (genv g)) (maxy (genv g)))"
    unfolding envelope_def using assms
    by (subst envelope_loop.simps) (simp add: num_geometries_def Let_def)
  also have "\<dots> = foldl expand_to_include
        (init box2d_ctor (minx (genv g)) (miny (genv g)) (maxx (genv g)) (maxy (genv g)))
        (map genv (drop (Suc 0) (geom_cont f)))"
    by (rule envelope_loop_expand) simp
  finally show ?thesis
    using assms by simp
qed

text \<open>
  Claim C7. Without a geometry, \<open>envelope\<close> returns the box that the default
  constructor builds. With exactly one geometry it returns the box of that geometry,
  set by \<open>init\<close> and not expanded from the empty box. With more, it starts from the box
  of the first geometry, set by \<open>init\<close>, and expands it with \<open>expand_to_include\<close> by
  the box of each further geometry, in the order in which they were added.
\<close>

theorem envelope_cases:
  "(geom_cont f = [] \<longrightarrow> envelope box2d_ctor genv f = box2d_ctor)
   \<and> (\<forall>g. geom_cont f = [g] \<longrightarrow> envelope box2d_ctor genv f = genv g)
   \<and> (\<forall>g gs. geom_cont f = g # gs \<longrightarrow>
         envelope box2d_ctor genv f
           = foldl expand_to_include
               (init box2d_ctor (minx (genv g)) (miny (genv g)) (maxx (genv g)) (maxy (genv g)))
               (map genv gs)
         \<and> init box2d_ctor (minx (genv g)) (miny (genv g)) (maxx (genv g)) (maxy (genv g))
           = genv g)"
  by (simp add: envelope_Nil envelope_Cons init_from_box)

theorem envelope_cases_witness:
  "geom_cont (geometries_feature []) = []
   \<and> envelope box_empty (\<lambda>g. g) (geometries_feature []) = box_empty
   \<and> geom_cont (geometries_feature [box_a]) = [box_a]
   \<and> envelope box_empty (\<lambda>g. g) (geometries_feature [box_a]) = box_a
   \<and> geom_cont (geometries_feature [box_a, box_b]) = box_a # [box_b]
   \<and> envelope box_empty (\<lambda>g. g) (geometries_feature [box_a, box_b])
       = \<lparr>minx = 0, miny = 0, maxx = 20, maxy = 20\<rparr>"
  using envelope_cases [of "geometries_feature []" box_empty "\<lambda>g. g"]
    envelope_cases [of "geometries_feature [box_a]" box_empty "\<lambda>g. g"]
    envelope_cases [of "geometries_feature [box_a, box_b]" box_empty "\<lambda>g. g"]
  by (simp add: geometries_feature_def box_a_def box_b_def expand_to_include_def)


section \<open>The text of a feature\<close>

lemma to_string_loop_append:
  "to_string_loop show_value d m ss
     = ss @ concat (map (\<lambda>(name, index). toText_line show_value name (d ! index))
                     (filter (\<lambda>(name, index). index < length d) m))"
  by (induction m arbitrary: ss)
    (auto simp: toText_line_def default_value_def endl_def)

lemma sort_key_map_inv: "map_inv m \<Longrightarrow> sort_key fst m = m"
  unfolding map_inv_def
  by (intro sort_key_id_if_sorted) (simp add: strict_sorted_imp_sorted)

text \<open>
  Claim C8. \<open>to_string\<close> writes the text of the specification: \<open>Feature ( id=\<close> and
  the identifier, then, for every entry of the schema in the order of the names whose
  index is below the length of the array, and for no other, a line of two blanks, the
  name, a colon and the value, which is \<open>null\<close> for the null value, then a line that
  holds \<open>)\<close> alone. The entries of a \<open>std::map\<close> come in the order of the names.
\<close>

theorem to_string_text:
  "map_inv (mapping (h (ctx f))) \<Longrightarrow> to_string show_value h f = toText show_value h f"
  by (simp add: to_string_def toText_def to_string_loop_append sort_key_map_inv endl_def)

theorem to_string_text_witness:
  "map_inv (mapping (nyc_store (ctx nyc_feature)))
   \<and> to_string show_value_example nyc_store nyc_feature
       = ''Feature ( id=7'' @ [CHR 0x0A] @ ''  name:NYC'' @ [CHR 0x0A]
         @ ''  pop:100'' @ [CHR 0x0A] @ '')'' @ [CHR 0x0A]
   \<and> to_string show_value_example nyc_store (nyc_feature\<lparr>data := [value_unicode_string ''NYC'', value_null]\<rparr>)
       = ''Feature ( id=7'' @ [CHR 0x0A] @ ''  name:NYC'' @ [CHR 0x0A]
         @ ''  pop:null'' @ [CHR 0x0A] @ '')'' @ [CHR 0x0A]
   \<and> to_string show_value_example nyc_store short_feature
       = ''Feature ( id=7'' @ [CHR 0x0A] @ ''  name:NYC'' @ [CHR 0x0A] @ '')'' @ [CHR 0x0A]"
  using to_string_text [of nyc_store nyc_feature show_value_example]
    to_string_text [of nyc_store "nyc_feature\<lparr>data := [value_unicode_string ''NYC'', value_null]\<rparr>"
      show_value_example]
    to_string_text [of nyc_store short_feature show_value_example]
  by (simp add: nyc_store_def nyc_feature_def short_feature_def map_inv_def toText_def
      toText_line_def show_value_example_def show_integer_def show_nat.simps default_value_def)

end
